theory Spec2Isabelle
  imports Complex_Main "HOL-Library.Word"
begin

section \<open>Values of the host language\<close>

text \<open>
  A string of the source language is a sequence of 16-bit code units; its \<open>length\<close>
  counts code units. The literal texts of the source (messages, keys, enumeration
  members) are ASCII and are written as HOL strings; \<open>js\<close> turns such a literal into
  the string value it denotes.
\<close>

type_synonym js_char = "16 word"
type_synonym js_string = "js_char list"

definition js :: "string \<Rightarrow> js_string" where
  "js s = map (\<lambda>c. of_nat (of_char c)) s"

subsection \<open>Numbers\<close>

text \<open>
  A number is a double: \<open>NaN\<close>, one of the two infinities, or a finite value, which is
  kept as the rational it denotes. The sign of zero is not kept; nothing in the
  program tells the two zeros apart.
\<close>

datatype js_number = NaN | NegInfinity | Num rat | PosInfinity

text \<open>
  Rounding to the nearest double, ties to even. \<open>exponent_of a\<close> is the exponent of
  the unit in the last place for the magnitude \<open>a\<close>: the least \<open>e\<close> from -1074 on with
  \<open>a < 2 ^ (e + 53)\<close>; there is none from \<open>2 ^ 1024\<close> on. The magnitude is rounded to a
  multiple of \<open>2 ^ e\<close>, and a result that reaches \<open>2 ^ 1024\<close> is an infinity.
\<close>

definition round_half_even :: "rat \<Rightarrow> int" where
  "round_half_even q =
     (let f = \<lfloor>q\<rfloor>; d = q - of_int f
      in if d < 1 / 2 then f else if 1 / 2 < d then f + 1 else if even f then f else f + 1)"

definition exponent_of :: "rat \<Rightarrow> int option" where
  "exponent_of a = List.find (\<lambda>e. a < 2 powi (e + 53)) [- 1074..971]"

definition fl :: "rat \<Rightarrow> js_number" where
  "fl x =
     (let inf = (if x < 0 then NegInfinity else PosInfinity)
      in case exponent_of \<bar>x\<bar> of
           None \<Rightarrow> inf
         | Some e \<Rightarrow>
             let m = of_int (round_half_even (\<bar>x\<bar> / 2 powi e)) * 2 powi e
             in if m < 2 powi 1024 then Num (if x < 0 then - m else m) else inf)"

text \<open>A decimal literal of the source denotes the double nearest to it.\<close>

definition literal :: "rat \<Rightarrow> js_number" where
  "literal x = fl x"

text \<open>Unary minus, \<open>+\<close>, \<open>-\<close> and \<open>*\<close>: the exact result, rounded.\<close>

fun js_neg :: "js_number \<Rightarrow> js_number" where
  "js_neg NaN = NaN"
| "js_neg NegInfinity = PosInfinity"
| "js_neg (Num x) = Num (- x)"
| "js_neg PosInfinity = NegInfinity"

fun js_add :: "js_number \<Rightarrow> js_number \<Rightarrow> js_number" where
  "js_add NaN y = NaN"
| "js_add x NaN = NaN"
| "js_add (Num x) (Num y) = fl (x + y)"
| "js_add PosInfinity NegInfinity = NaN"
| "js_add NegInfinity PosInfinity = NaN"
| "js_add PosInfinity y = PosInfinity"
| "js_add x PosInfinity = PosInfinity"
| "js_add NegInfinity y = NegInfinity"
| "js_add x NegInfinity = NegInfinity"

definition js_sub :: "js_number \<Rightarrow> js_number \<Rightarrow> js_number" where
  "js_sub x y = js_add x (js_neg y)"

fun js_mul :: "js_number \<Rightarrow> js_number \<Rightarrow> js_number" where
  "js_mul NaN y = NaN"
| "js_mul x NaN = NaN"
| "js_mul (Num x) (Num y) = fl (x * y)"
| "js_mul (Num x) y = (if x = 0 then NaN else if 0 < x then y else js_neg y)"
| "js_mul x (Num y) = (if y = 0 then NaN else if 0 < y then x else js_neg x)"
| "js_mul x y = (if x = y then PosInfinity else NegInfinity)"

text \<open>
  \<open>x < k\<close>, \<open>x > k\<close> and \<open>x >= k\<close> for a finite constant \<open>k\<close>; every comparison with
  \<open>NaN\<close> is false.
\<close>

fun num_less :: "js_number \<Rightarrow> rat \<Rightarrow> bool" where
  "num_less NaN k = False"
| "num_less NegInfinity k = True"
| "num_less (Num x) k = (x < k)"
| "num_less PosInfinity k = False"

fun num_greater :: "js_number \<Rightarrow> rat \<Rightarrow> bool" where
  "num_greater NaN k = False"
| "num_greater NegInfinity k = False"
| "num_greater (Num x) k = (x > k)"
| "num_greater PosInfinity k = True"


subsection \<open>Character classes of the regular expressions\<close>

text \<open>\<open>[0-9]\<close>, also the complement of \<open>\D\<close>.\<close>

definition isDigit :: "js_char \<Rightarrow> bool" where
  "isDigit c = (0x30 \<le> c \<and> c \<le> 0x39)"

text \<open>\<open>[a-zA-Z]\<close>, without the \<open>i\<close> and \<open>u\<close> flags.\<close>

definition isLetter :: "js_char \<Rightarrow> bool" where
  "isLetter c = ((0x61 \<le> c \<and> c \<le> 0x7A) \<or> (0x41 \<le> c \<and> c \<le> 0x5A))"

text \<open>
  \<open>\s\<close>: the white space and line terminator code points of the language
  (TAB, LF, VT, FF, CR, SP, NBSP, U+1680, U+2000 to U+200A, U+2028, U+2029, U+202F,
  U+205F, U+3000, U+FEFF). \<open>parseInt\<close> strips the same set.
\<close>

definition isWhiteSpace :: "js_char \<Rightarrow> bool" where
  "isWhiteSpace c =
     ((0x09 \<le> c \<and> c \<le> 0x0D) \<or> c = 0x20 \<or> c = 0xA0 \<or> c = 0x1680
      \<or> (0x2000 \<le> c \<and> c \<le> 0x200A) \<or> c = 0x2028 \<or> c = 0x2029 \<or> c = 0x202F
      \<or> c = 0x205F \<or> c = 0x3000 \<or> c = 0xFEFF)"

subsection \<open>parseInt\<close>

text \<open>
  \<open>parseInt(s)\<close> with no radix: leading white space is dropped, then an optional sign,
  then \<open>0x\<close> or \<open>0X\<close> selects radix 16 (radix 10 otherwise), then the longest run of
  digits of the radix is read; no digit at all gives \<open>NaN\<close>.

  The result is the integer read, as a number: rounded to the nearest double, and an
  infinity when it is too large for one. (Every digit is read, as the engines do; the
  language also lets an engine read the digits after the twentieth as zeros.)
\<close>

definition digitValue :: "js_char \<Rightarrow> nat" where
  "digitValue c =
     (if 0x30 \<le> c \<and> c \<le> 0x39 then unat c - 0x30
      else if 0x61 \<le> c \<and> c \<le> 0x7A then unat c - 0x61 + 10
      else if 0x41 \<le> c \<and> c \<le> 0x5A then unat c - 0x41 + 10
      else 36)"

definition isRadixDigit :: "nat \<Rightarrow> js_char \<Rightarrow> bool" where
  "isRadixDigit R c = (digitValue c < R)"

definition mathInt :: "nat \<Rightarrow> js_string \<Rightarrow> nat" where
  "mathInt R Z = foldl (\<lambda>acc c. acc * R + digitValue c) 0 Z"

definition signOf :: "js_string \<Rightarrow> int" where
  "signOf S = (case S of [] \<Rightarrow> 1 | c # _ \<Rightarrow> if c = 0x2D then - 1 else 1)"

definition stripSign :: "js_string \<Rightarrow> js_string" where
  "stripSign S = (case S of [] \<Rightarrow> [] | c # r \<Rightarrow> if c = 0x2B \<or> c = 0x2D then r else S)"

fun stripPrefix :: "js_string \<Rightarrow> nat \<times> js_string" where
  "stripPrefix (a # b # r) = (if a = 0x30 \<and> (b = 0x78 \<or> b = 0x58) then (16, r) else (10, a # b # r))"
| "stripPrefix S = (10, S)"

definition parseInt :: "js_string \<Rightarrow> js_number" where
  "parseInt str =
     (let S = dropWhile isWhiteSpace str;
          sign = signOf S;
          (R, S') = stripPrefix (stripSign S);
          Z = takeWhile (isRadixDigit R) S'
      in if Z = [] then NaN else fl (of_int (sign * int (mathInt R Z))))"

section \<open>The form and its schema (pages/Apply.tsx)\<close>

text \<open>\<open>FormData\<close>: the five fields as the user typed them, all text.\<close>

record FormData =
  name :: js_string
  mobile :: js_string
  email :: js_string
  age :: js_string
  qualification :: js_string

text \<open>\<open>keyof FormData\<close>.\<close>

datatype field = Name | Mobile | Email | Age | Qualification

text \<open>
  The object handed to \<open>applySchema.parse\<close> and, when it is valid, returned by it and
  sent on: the fields of the form with \<open>age\<close> replaced by a number.
\<close>

record application =
  app_name :: js_string
  app_mobile :: js_string
  app_email :: js_string
  app_age :: js_number
  app_qualification :: js_string

text \<open>An entry of \<open>ZodError.errors\<close>: the path to the offending value and a message.\<close>

record issue =
  path :: "field list"
  message :: string

subsection \<open>The field rules\<close>

text \<open>
  Each rule returns the messages of the checks that fail, in the order of the checks.
  A string schema runs all its checks, so an empty name fails both \<open>min(1)\<close> and the
  pattern. The patterns are anchored at both ends and have no flags.
\<close>

text \<open>\<open>/^[a-zA-Z\s]+$/\<close>\<close>

definition name_regex :: "js_string \<Rightarrow> bool" where
  "name_regex s = (s \<noteq> [] \<and> list_all (\<lambda>c. isLetter c \<or> isWhiteSpace c) s)"

text \<open>\<open>/^[0-9]{10}$/\<close>\<close>

definition mobile_regex :: "js_string \<Rightarrow> bool" where
  "mobile_regex s = (length s = 10 \<and> list_all isDigit s)"

definition name_rule :: "js_string \<Rightarrow> string list" where
  "name_rule s =
     (if length s < 1 then [''Name is required''] else []) @
     (if name_regex s then [] else [''Name must contain only letters and spaces''])"

definition mobile_rule :: "js_string \<Rightarrow> string list" where
  "mobile_rule s =
     (if mobile_regex s then [] else [''Mobile number must be exactly 10 digits''])"

text \<open>
  The pattern behind \<open>.email(...)\<close> belongs to the schema library and differs between
  its releases; it is the parameter \<open>email_regex\<close> of everything that validates.
\<close>

definition email_rule :: "(js_string \<Rightarrow> bool) \<Rightarrow> js_string \<Rightarrow> string list" where
  "email_rule email_regex s = (if email_regex s then [] else [''Invalid email format''])"

text \<open>
  \<open>z.number()\<close> rejects \<open>NaN\<close> with the library's own type message and runs no further
  check; any other number goes through \<open>min(18)\<close> and \<open>max(100)\<close>, both inclusive.
  There is no \<open>int()\<close> check.
\<close>

definition age_rule :: "js_number \<Rightarrow> string list" where
  "age_rule n =
     (if n = NaN then [''Expected number, received nan'']
      else (if num_less n 18 then [''Age must be at least 18''] else []) @
           (if num_greater n 100 then [''Age must be less than 100''] else []))"

text \<open>The members of \<open>z.enum\<close>; its \<open>errorMap\<close> gives every issue of the field one message.\<close>

definition qualifications :: "js_string list" where
  "qualifications = [js ''High School'', js ''UG'', js ''PG'', js ''Others'']"

definition qualification_rule :: "js_string \<Rightarrow> string list" where
  "qualification_rule s =
     (if s \<in> set qualifications then [] else [''Please select a qualification''])"

subsection \<open>applySchema.parse\<close>

text \<open>The messages the schema has for one key of the candidate.\<close>

fun field_messages :: "(js_string \<Rightarrow> bool) \<Rightarrow> application \<Rightarrow> field \<Rightarrow> string list" where
  "field_messages email_regex a Name = name_rule (app_name a)"
| "field_messages email_regex a Mobile = mobile_rule (app_mobile a)"
| "field_messages email_regex a Email = email_rule email_regex (app_email a)"
| "field_messages email_regex a Age = age_rule (app_age a)"
| "field_messages email_regex a Qualification = qualification_rule (app_qualification a)"

definition issues_at :: "field \<Rightarrow> string list \<Rightarrow> issue list" where
  "issues_at f msgs = map (\<lambda>m. \<lparr>path = [f], message = m\<rparr>) msgs"

text \<open>
  The object schema visits its keys in the order they are written and collects the
  issues of all of them.
\<close>

definition applySchema_issues :: "(js_string \<Rightarrow> bool) \<Rightarrow> application \<Rightarrow> issue list" where
  "applySchema_issues email_regex a =
     issues_at Name (field_messages email_regex a Name) @
     issues_at Mobile (field_messages email_regex a Mobile) @
     issues_at Email (field_messages email_regex a Email) @
     issues_at Age (field_messages email_regex a Age) @
     issues_at Qualification (field_messages email_regex a Qualification)"

text \<open>\<open>parse\<close> throws a \<open>ZodError\<close> holding the issues (\<open>Inl\<close>), or returns the record.\<close>

definition applySchema_parse :: "(js_string \<Rightarrow> bool) \<Rightarrow> application \<Rightarrow> issue list + application" where
  "applySchema_parse email_regex a =
     (case applySchema_issues email_regex a of [] \<Rightarrow> Inr a | i # is \<Rightarrow> Inl (i # is))"

section \<open>The form state controller (the Apply component)\<close>

record toast =
  title :: string
  description :: string
  variant :: string

text \<open>The error object of a failed invocation, opaque to the component.\<close>

datatype functions_error = FunctionsError string

text \<open>The callback handed to \<open>setTimeout\<close>: \<open>navigate(-1)\<close>.\<close>

datatype timer_action = NavigateBack

text \<open>
  The component's four state variables, followed by what it has done to its
  surroundings: the toasts shown, the \<open>console.error\<close> calls, the invocations of the
  remote function (name and body), how many of them have not been answered yet, the
  items written to \<open>sessionStorage\<close>, and the timeouts set (delay in ms and callback).
\<close>

record world =
  loading :: bool
  submitted :: bool
  formData :: FormData
  errors :: "field \<rightharpoonup> string"
  toasts :: "toast list"
  console_errors :: "(string \<times> functions_error) list"
  invoked :: "(string \<times> application) list"
  in_flight :: nat
  sessionStorage :: "string \<rightharpoonup> string"
  timeouts :: "(nat \<times> timer_action) list"

definition initial :: world where
  "initial =
     \<lparr>loading = False, submitted = False,
      formData = \<lparr>name = [], mobile = [], email = [], age = [], qualification = []\<rparr>,
      errors = Map.empty, toasts = [], console_errors = [], invoked = [], in_flight = 0,
      sessionStorage = Map.empty, timeouts = []\<rparr>"

subsection \<open>handleInputChange\<close>

definition field_text :: "field \<Rightarrow> FormData \<Rightarrow> js_string" where
  "field_text f fd =
     (case f of Name \<Rightarrow> name fd | Mobile \<Rightarrow> mobile fd | Email \<Rightarrow> email fd
      | Age \<Rightarrow> age fd | Qualification \<Rightarrow> qualification fd)"

text \<open>\<open>{ ...prev, [field]: value }\<close>\<close>

definition set_field :: "field \<Rightarrow> js_string \<Rightarrow> FormData \<Rightarrow> FormData" where
  "set_field f v fd =
     (case f of Name \<Rightarrow> fd\<lparr>name := v\<rparr> | Mobile \<Rightarrow> fd\<lparr>mobile := v\<rparr>
      | Email \<Rightarrow> fd\<lparr>email := v\<rparr> | Age \<Rightarrow> fd\<lparr>age := v\<rparr>
      | Qualification \<Rightarrow> fd\<lparr>qualification := v\<rparr>)"

text \<open>
  The error of the field is reset to \<open>undefined\<close> when it holds a truthy (non-empty)
  message; an \<open>undefined\<close> entry reads like an absent one.
\<close>

definition handleInputChange :: "field \<Rightarrow> js_string \<Rightarrow> world \<Rightarrow> world" where
  "handleInputChange f v w =
     (let w' = w\<lparr>formData := set_field f v (formData w)\<rparr>
      in case errors w f of
           None \<Rightarrow> w'
         | Some m \<Rightarrow> if m \<noteq> [] then w'\<lparr>errors := (errors w)(f := None)\<rparr> else w')"

subsection \<open>handleSubmit\<close>

text \<open>\<open>{ ...formData, age: parseInt(formData.age), qualification: formData.qualification }\<close>\<close>

definition candidate :: "FormData \<Rightarrow> application" where
  "candidate fd =
     \<lparr>app_name = name fd, app_mobile = mobile fd, app_email = email fd,
      app_age = parseInt (age fd), app_qualification = qualification fd\<rparr>"

text \<open>
  The \<open>forEach\<close> over \<open>error.errors\<close>: an issue with a first path element writes its
  message under that key, a later issue of the same key overwriting an earlier one.
  (The keys are non-empty strings, so \<open>err.path[0]\<close> is truthy whenever it exists.)
\<close>

fun newErrors :: "issue list \<Rightarrow> (field \<rightharpoonup> string) \<Rightarrow> (field \<rightharpoonup> string)" where
  "newErrors [] m = m"
| "newErrors (err # rest) m =
     newErrors rest (case path err of [] \<Rightarrow> m | f # _ \<Rightarrow> m(f \<mapsto> message err))"

definition validation_toast :: toast where
  "validation_toast =
     \<lparr>title = ''Validation Error'',
      description = ''Please check all fields and try again.'',
      variant = ''destructive''\<rparr>"

definition failure_toast :: toast where
  "failure_toast =
     \<lparr>title = ''Submission Failed'',
      description = ''Something went wrong. Please try again.'',
      variant = ''destructive''\<rparr>"

text \<open>
  \<open>handleSubmit\<close> is asynchronous with one \<open>await\<close>. Its run up to there either
  finishes (validation failed: the \<open>catch\<close> branch for a \<open>ZodError\<close>, then \<open>finally\<close>)
  or is suspended on the invocation it has just issued.
\<close>

datatype suspension = Settled world | Awaiting application world

fun world_of :: "suspension \<Rightarrow> world" where
  "world_of (Settled w) = w"
| "world_of (Awaiting body w) = w"

definition handleSubmit_begin :: "(js_string \<Rightarrow> bool) \<Rightarrow> world \<Rightarrow> suspension" where
  "handleSubmit_begin email_regex w =
     (let w1 = w\<lparr>errors := Map.empty\<rparr>
      in case applySchema_parse email_regex (candidate (formData w)) of
           Inl errs \<Rightarrow>
             Settled (w1\<lparr>errors := newErrors errs Map.empty,
                         toasts := toasts w1 @ [validation_toast],
                         loading := False\<rparr>)
         | Inr validatedData \<Rightarrow>
             Awaiting validatedData
               (w1\<lparr>loading := True,
                   invoked := invoked w1 @ [(''submit-application'', validatedData)],
                   in_flight := Suc (in_flight w1)\<rparr>))"

text \<open>
  The rest of the run, once the invocation is answered: \<open>Some e\<close> is a truthy \<open>error\<close>,
  which is thrown and caught by the branch for everything that is not a \<open>ZodError\<close>;
  \<open>None\<close> is success. \<open>finally\<close> clears \<open>loading\<close> on both paths.
\<close>

definition handleSubmit_resume :: "functions_error option \<Rightarrow> world \<Rightarrow> world" where
  "handleSubmit_resume error w =
     (let w1 = w\<lparr>in_flight := in_flight w - 1\<rparr>
      in case error of
           Some e \<Rightarrow>
             w1\<lparr>console_errors := console_errors w1 @ [(''Submission error:'', e)],
                toasts := toasts w1 @ [failure_toast],
                loading := False\<rparr>
         | None \<Rightarrow>
             w1\<lparr>submitted := True,
                sessionStorage := (sessionStorage w1)(''submission_success'' \<mapsto> ''true''),
                timeouts := timeouts w1 @ [(5000, NavigateBack)],
                loading := False\<rparr>)"

text \<open>A whole run of \<open>handleSubmit\<close> with nothing in between; \<open>gateway\<close> answers the invocation.\<close>

definition handleSubmit ::
    "(js_string \<Rightarrow> bool) \<Rightarrow> (application \<Rightarrow> functions_error option) \<Rightarrow> world \<Rightarrow> world" where
  "handleSubmit email_regex gateway w =
     (case handleSubmit_begin email_regex w of
        Settled w' \<Rightarrow> w'
      | Awaiting body w' \<Rightarrow> handleSubmit_resume (gateway body) w')"

subsection \<open>The rendered form\<close>

text \<open>
  The events that reach the handlers of the component: a change of an input, a submit
  event on the form, and the answer to an invocation. What the browser withholds (a
  click on a disabled button, a submission it rejects by its own checks of the inputs)
  is simply not among the events. Once \<open>submitted\<close> is set the success screen is
  rendered in place of the form, so no change and no submit event reaches a handler.
  The mobile input keeps the first ten digits of what was typed and the age input
  keeps its digits; the other inputs pass the text on. The form hands a submit event
  to \<open>handleSubmit\<close> as it is.
\<close>

datatype event = Input field js_string | Submit | Reply "functions_error option"

definition onChange :: "field \<Rightarrow> js_string \<Rightarrow> world \<Rightarrow> world" where
  "onChange f raw w =
     (case f of
        Mobile \<Rightarrow> handleInputChange Mobile (take 10 (filter isDigit raw)) w
      | Age \<Rightarrow> handleInputChange Age (filter isDigit raw) w
      | _ \<Rightarrow> handleInputChange f raw w)"

fun step :: "(js_string \<Rightarrow> bool) \<Rightarrow> world \<Rightarrow> event \<Rightarrow> world" where
  "step email_regex w (Input f raw) = (if submitted w then w else onChange f raw w)"
| "step email_regex w Submit =
     (if submitted w then w else world_of (handleSubmit_begin email_regex w))"
| "step email_regex w (Reply r) = (if in_flight w = 0 then w else handleSubmit_resume r w)"

definition run :: "(js_string \<Rightarrow> bool) \<Rightarrow> event list \<Rightarrow> world" where
  "run email_regex evs = foldl (step email_regex) initial evs"

text \<open>The \<open>disabled\<close> property the submit button is rendered with: \<open>disabled={loading}\<close>.\<close>

definition submit_disabled :: "world \<Rightarrow> bool" where
  "submit_disabled w = loading w"

text \<open>
  A sequence of events in which every submit event comes while the submit button is
  rendered enabled, as it does when submit events come from that button only.
\<close>

fun button_respected :: "(js_string \<Rightarrow> bool) \<Rightarrow> world \<Rightarrow> event list \<Rightarrow> bool" where
  "button_respected email_regex w [] = True"
| "button_respected email_regex w (ev # evs) =
     ((ev = Submit \<longrightarrow> \<not> submit_disabled w) \<and>
      button_respected email_regex (step email_regex w ev) evs)"

section \<open>The ticker (components/MarketTicker.tsx)\<close>

text \<open>
  \<open>MarketData\<close>. The fields carry the prefix \<open>m_\<close>, the name of the second one being
  reserved.
\<close>

record MarketData =
  m_index :: string
  m_value :: js_number
  m_change :: js_number
  m_changePercent :: js_number


text \<open>\<open>(Math.random() - 0.5) * k\<close>, for a draw \<open>r\<close> of \<open>Math.random\<close>.\<close>

definition perturbation :: "rat \<Rightarrow> rat \<Rightarrow> js_number" where
  "perturbation r k = js_mul (js_sub (Num r) (literal (1 / 2))) (literal k)"

text \<open>
  The callback of the interval. \<open>random\<close> gives the draws of \<open>Math.random\<close> in the order
  of the calls: the item at position \<open>j\<close> takes the draws \<open>3j\<close>, \<open>3j + 1\<close> and \<open>3j + 2\<close> for
  its value, its change and its percent change.
\<close>

definition tick_item :: "(nat \<Rightarrow> rat) \<Rightarrow> nat \<Rightarrow> MarketData \<Rightarrow> MarketData" where
  "tick_item random j item =
     item\<lparr>m_value := js_add (m_value item) (perturbation (random (3 * j)) 50),
          m_change := js_add (m_change item) (perturbation (random (3 * j + 1)) 10),
          m_changePercent :=
            js_add (m_changePercent item) (perturbation (random (3 * j + 2)) (1 / 5))\<rparr>"

definition tick :: "(nat \<Rightarrow> rat) \<Rightarrow> MarketData list \<Rightarrow> MarketData list" where
  "tick random prev = map (\<lambda>(j, item). tick_item random j item) (zip [0..<length prev] prev)"



section \<open>Concrete inputs\<close>

text \<open>A stand-in for the library's e-mail pattern at the examples: some text around an \<open>@\<close>.\<close>

definition sample_email_regex :: "js_string \<Rightarrow> bool" where
  "sample_email_regex s = (takeWhile (\<lambda>c. c \<noteq> 0x40) s \<noteq> [] \<and> 1 < length (dropWhile (\<lambda>c. c \<noteq> 0x40) s))"

definition jane :: FormData where
  "jane =
     \<lparr>name = js ''Jane Doe'', mobile = js ''9876543210'', email = js ''jane@example.com'',
      age = js ''25'', qualification = js ''UG''\<rparr>"

text \<open>The form filled in with this data, and the same form while its submission is in flight.\<close>

definition filled :: world where
  "filled = initial\<lparr>formData := jane\<rparr>"

definition submitting :: world where
  "submitting = world_of (handleSubmit_begin sample_email_regex filled)"

definition accepting_gateway :: "application \<Rightarrow> functions_error option" where
  "accepting_gateway body = None"

definition failing_gateway :: "application \<Rightarrow> functions_error option" where
  "failing_gateway body = Some (FunctionsError ''Failed to fetch'')"

text \<open>
  A user typing the data in (with a hyphen in the phone number); then one submit event,
  and two submit events in a row.
\<close>

definition typing :: "event list" where
  "typing =
     [Input Name (js ''Jane Doe''), Input Mobile (js ''98765-43210''),
      Input Email (js ''jane@example.com''), Input Age (js ''25''),
      Input Qualification (js ''UG'')]"

definition submit_once :: "event list" where
  "submit_once = typing @ [Submit]"

definition submit_twice :: "event list" where
  "submit_twice = typing @ [Submit, Submit]"


text \<open>Candidates next to Jane's: a blank name, a short phone number, a qualification not on the list.\<close>

definition blank_name :: application where
  "blank_name = (candidate jane)\<lparr>app_name := [0x20, 0x09, 0xA0]\<rparr>"

definition short_mobile :: application where
  "short_mobile = (candidate jane)\<lparr>app_mobile := js ''12345''\<rparr>"

definition graduate :: application where
  "graduate = (candidate jane)\<lparr>app_qualification := js ''Graduate''\<rparr>"

section \<open>Notions used in the statements\<close>

text \<open>The message left under a key by \<open>newErrors\<close>: the last one of the key, if it has any.\<close>

definition last_message :: "string list \<Rightarrow> string option" where
  "last_message msgs = (if msgs = [] then None else Some (last msgs))"

text \<open>\<open>loading\<close> is set exactly while one invocation is unanswered, and there is never a second.\<close>

definition one_at_most :: "world \<Rightarrow> bool" where
  "one_at_most w = (in_flight w = (if loading w then 1 else 0))"


section \<open>Facts about rounding\<close>




lemma rhe_int: "round_half_even (of_int n) = n"
  by (simp add: round_half_even_def)


lemma rhe_tie: "q = of_int n + 1 / 2 \<Longrightarrow> round_half_even q = (if even n then n else n + 1)"
proof -
  assume a: "q = of_int n + 1 / 2"
  then have "\<lfloor>q\<rfloor> = n" by (intro floor_unique) auto
  with a show ?thesis by (simp add: round_half_even_def Let_def)
qed

lemma pow2_mono: "a \<le> b \<Longrightarrow> (2::rat) powi a \<le> 2 powi b"
  by (rule power_int_increasing) simp_all


lemma pow2_pos: "0 < (2::rat) powi a"
  by simp

lemma find_upto_Some:
  assumes "List.find P [lo..hi] = Some e"
  shows "lo \<le> e \<and> e \<le> hi \<and> P e \<and> (\<forall>k. lo \<le> k \<and> k < e \<longrightarrow> \<not> P k)"
proof -
  from assms obtain i where i: "i < length [lo..hi]"
      and P: "P ([lo..hi] ! i)" and e: "e = [lo..hi] ! i"
      and least: "\<forall>j<i. \<not> P ([lo..hi] ! j)"
    unfolding find_Some_iff by blast
  from i have ei: "e = lo + int i" and hi: "lo + int i \<le> hi" unfolding e by simp_all
  have "\<not> P k" if k: "lo \<le> k" "k < e" for k
  proof -
    from k ei have "nat (k - lo) < i" by simp
    with least have "\<not> P ([lo..hi] ! nat (k - lo))" by blast
    moreover from k hi ei have "[lo..hi] ! nat (k - lo) = k" by simp
    ultimately show ?thesis by simp
  qed
  with P e ei hi show ?thesis by simp
qed

lemma find_upto_eq:
  assumes "lo \<le> e" "e \<le> hi" "P e" "\<forall>k. lo \<le> k \<and> k < e \<longrightarrow> \<not> P k"
  shows "List.find P [lo..hi] = Some e"
proof -
  define i where "i = nat (e - lo)"
  from assms(1,2) have i: "i < length [lo..hi]" and ei: "[lo..hi] ! i = e"
    unfolding i_def by simp_all
  have "\<forall>j<i. \<not> P ([lo..hi] ! j)"
  proof (intro allI impI)
    fix j assume j: "j < i"
    with assms(1,2) have "[lo..hi] ! j = lo + int j" unfolding i_def by simp
    moreover from j have "lo + int j < e" unfolding i_def by simp
    ultimately show "\<not> P ([lo..hi] ! j)" using assms(4) by simp
  qed
  with i ei assms(3) show ?thesis
    unfolding find_Some_iff by blast
qed

lemma find_upto_None: "(List.find P [lo..hi] = None) = (\<forall>k. lo \<le> k \<and> k \<le> hi \<longrightarrow> \<not> P k)"
  unfolding find_None_iff by auto

lemma exponent_Some:
  assumes "exponent_of a = Some e"
  shows "- 1074 \<le> e \<and> e \<le> 971 \<and> a < 2 powi (e + 53) \<and> (e = - 1074 \<or> 2 powi (e + 52) \<le> a)"
proof -
  from assms have "List.find (\<lambda>e. a < 2 powi (e + 53)) [- 1074..971] = Some e"
    by (simp only: exponent_of_def)
  from find_upto_Some [OF this]
  have r: "- 1074 \<le> e" "e \<le> 971" "a < 2 powi (e + 53)"
    and least: "\<forall>k. - 1074 \<le> k \<and> k < e \<longrightarrow> \<not> a < 2 powi (k + 53)"
    by blast+
  have "e = - 1074 \<or> 2 powi (e + 52) \<le> a"
  proof (cases "e = - 1074")
    case False
    with r(1) have "- 1074 \<le> e - 1 \<and> e - 1 < e" by simp
    with least have "\<not> a < 2 powi (e - 1 + 53)" by blast
    moreover have "e - 1 + 53 = e + 52" by simp
    ultimately show ?thesis by simp
  qed simp
  with r show ?thesis by blast
qed

lemma exponent_eq:
  assumes "- 1074 \<le> e" "e \<le> 971" "a < 2 powi (e + 53)" "e = - 1074 \<or> 2 powi (e + 52) \<le> a"
  shows "exponent_of a = Some e"
proof -
  have "\<forall>k. - 1074 \<le> k \<and> k < e \<longrightarrow> \<not> a < 2 powi (k + 53)"
  proof (intro allI impI)
    fix k assume k: "- 1074 \<le> k \<and> k < e"
    then have "k + 53 \<le> e + 52" by simp
    then have "(2::rat) powi (k + 53) \<le> 2 powi (e + 52)" by (rule pow2_mono)
    moreover from k assms(4) have "2 powi (e + 52) \<le> a" by auto
    ultimately show "\<not> a < 2 powi (k + 53)" by simp
  qed
  with assms(1-3) have "List.find (\<lambda>e. a < 2 powi (e + 53)) [- 1074..971] = Some e"
    by (intro find_upto_eq) 
  then show ?thesis by (simp only: exponent_of_def)
qed

lemma exponent_None: "(exponent_of a = None) = (2 powi 1024 \<le> a)"
proof -
  have "(exponent_of a = None) = (\<forall>k. - 1074 \<le> k \<and> k \<le> 971 \<longrightarrow> \<not> a < 2 powi (k + 53))"
    by (simp only: exponent_of_def find_upto_None)
  also have "\<dots> = (2 powi 1024 \<le> a)"
  proof
    assume "\<forall>k. - 1074 \<le> k \<and> k \<le> 971 \<longrightarrow> \<not> a < 2 powi (k + 53)"
    moreover have "- 1074 \<le> (971::int) \<and> (971::int) \<le> 971" by simp
    ultimately have "\<not> a < 2 powi (971 + 53)" by blast
    then show "2 powi 1024 \<le> a" by simp
  next
    assume h: "2 powi 1024 \<le> a"
    show "\<forall>k. - 1074 \<le> k \<and> k \<le> 971 \<longrightarrow> \<not> a < 2 powi (k + 53)"
    proof (intro allI impI)
      fix k :: int assume "- 1074 \<le> k \<and> k \<le> 971"
      then have "k + 53 \<le> 1024" by simp
      then have "(2::rat) powi (k + 53) \<le> 2 powi 1024" by (rule pow2_mono)
      with h show "\<not> a < 2 powi (k + 53)" by simp
    qed
  qed
  finally show ?thesis .
qed

lemma exponent_le:
  assumes "a < 2 powi (g + 53)" "- 1074 \<le> g" "g \<le> 971"
  shows "\<exists>e. exponent_of a = Some e \<and> e \<le> g"
proof (cases "exponent_of a")
  case None
  then have "2 powi 1024 \<le> a" by (simp add: exponent_None)
  moreover from assms(3) have "(2::rat) powi (g + 53) \<le> 2 powi 1024" by (intro pow2_mono) simp
  ultimately show ?thesis using assms(1) by simp
next
  case (Some e)
  from exponent_Some [OF Some] have "e = - 1074 \<or> 2 powi (e + 52) \<le> a" by simp
  then have "e \<le> g"
  proof
    assume "e = - 1074" with assms(2) show ?thesis by simp
  next
    assume "2 powi (e + 52) \<le> a"
    with assms(1) have "(2::rat) powi (e + 52) < 2 powi (g + 53)" by simp
    then have "e + 52 < g + 53"
      by (metis linorder_not_less pow2_mono leD)
    then show ?thesis by simp
  qed
  with Some show ?thesis by simp
qed


lemma pow2_int: "0 \<le> k \<Longrightarrow> (2::rat) powi k = of_int (2 ^ nat k)"
  by (simp add: power_int_def)

lemma pow2_div: "(2::rat) powi g / 2 powi e = 2 powi (g - e)"
  by (simp add: power_int_diff)

lemma fl_Some:
  assumes "exponent_of \<bar>x\<bar> = Some e"
    and "m = of_int (round_half_even (\<bar>x\<bar> / 2 powi e)) * 2 powi e"
    and "m < 2 powi 1024"
  shows "fl x = Num (if x < 0 then - m else m)"
  using assms by (simp add: fl_def Let_def)

lemma rhe_zero: "round_half_even 0 = 0"
  using rhe_int [of 0] by simp

lemma fl_zero: "fl 0 = Num 0"
proof -
  have e: "exponent_of \<bar>0\<bar> = Some (- 1074)"
    by (rule exponent_eq) simp_all
  have m: "(0::rat) = of_int (round_half_even (\<bar>0\<bar> / 2 powi (- 1074))) * 2 powi (- 1074)"
    by (simp add: rhe_zero)
  have "(0::rat) < 2 powi 1024" by (rule pow2_pos)
  from fl_Some [OF e m this] show ?thesis by simp
qed

lemma fl_minus: "fl (- x) = js_neg (fl x)"
proof (cases "x = 0")
  case True
  then show ?thesis by (simp add: fl_zero)
next
  case False
  then have "(- x < 0) = (\<not> x < 0)" by auto
  then show ?thesis by (simp add: fl_def Let_def split: option.splits)
qed




lemma fl_double:
  assumes "\<bar>n\<bar> < 2 ^ 53" "- 1074 \<le> e" "e \<le> 971"
  shows "fl (of_int n * 2 powi e) = Num (of_int n * 2 powi e)"
proof -
  have pos: "fl (of_int k * 2 powi e) = Num (of_int k * 2 powi e)" if k: "0 \<le> k" "k < 2 ^ 53" for k
  proof -
    define a :: rat where "a = of_int k * 2 powi e"
    have a0: "0 \<le> a" unfolding a_def using k(1) by simp
    have "(of_int k :: rat) < 2 ^ 53" using k(2) by (metis of_int_less_iff of_int_numeral of_int_power)
    then have "a < 2 ^ 53 * 2 powi e" unfolding a_def by (simp add: mult_strict_right_mono)
    also have "\<dots> = 2 powi (e + 53)" by (simp add: power_int_add)
    finally have ab: "a < 2 powi (e + 53)" .
    then have "\<bar>a\<bar> < 2 powi (e + 53)" using a0 by simp
    from exponent_le [OF this assms(2,3)] obtain e' where e': "exponent_of \<bar>a\<bar> = Some e'" "e' \<le> e"
      by blast
    have "(2::rat) powi e = 2 powi (e - e') * 2 powi e'" by (simp add: power_int_add [symmetric])
    moreover from e'(2) have "(2::rat) powi (e - e') = of_int (2 ^ nat (e - e'))" by (intro pow2_int) simp
    ultimately have "a = of_int (k * 2 ^ nat (e - e')) * 2 powi e'" unfolding a_def by simp
    then have "\<bar>a\<bar> / 2 powi e' = of_int (k * 2 ^ nat (e - e'))" and a': "a = of_int (k * 2 ^ nat (e - e')) * 2 powi e'"
      using a0 by simp_all
    then have m: "a = of_int (round_half_even (\<bar>a\<bar> / 2 powi e')) * 2 powi e'"
      by (simp only: rhe_int)
    from assms(3) have "(2::rat) powi (e + 53) \<le> 2 powi 1024" by (intro pow2_mono) simp
    with ab have "a < 2 powi 1024" by simp
    from fl_Some [OF e'(1) m this] a0 show ?thesis unfolding a_def by simp
  qed
  show ?thesis
  proof (cases "0 \<le> n")
    case True
    with assms(1) show ?thesis by (intro pos) simp_all
  next
    case False
    with assms(1) have "fl (of_int (- n) * 2 powi e) = Num (of_int (- n) * 2 powi e)"
      by (intro pos) simp_all
    then have "fl (- (of_int n * 2 powi e)) = Num (- (of_int n * 2 powi e))" by simp
    then show ?thesis unfolding fl_minus by (cases "fl (of_int n * 2 powi e)") simp_all
  qed
qed

lemma fl_int: "\<bar>n\<bar> < 2 ^ 53 \<Longrightarrow> fl (of_int n) = Num (of_int n)"
  using fl_double [of n 0] by simp

lemma fl_forms: "fl x = PosInfinity \<or> fl x = NegInfinity \<or> (\<exists>y. fl x = Num y)"
  by (simp add: fl_def Let_def split: option.splits)


lemma fl_tie:
  assumes "0 \<le> a" "- 1074 \<le> e" "e \<le> 971" "a < 2 powi (e + 53)" "e = - 1074 \<or> 2 powi (e + 52) \<le> a"
    and "a / 2 powi e = of_int n + 1 / 2" and "odd n" and "of_int (n + 1) * 2 powi e < (2::rat) powi 1024"
  shows "fl a = Num (of_int (n + 1) * 2 powi e)"
proof -
  from assms(1) have abs: "\<bar>a\<bar> = a" by simp
  have e: "exponent_of \<bar>a\<bar> = Some e" unfolding abs using assms(2-5) by (rule exponent_eq)
  from assms(6,7) have "round_half_even (a / 2 powi e) = n + 1" by (simp add: rhe_tie)
  then have m: "of_int (n + 1) * 2 powi e = of_int (round_half_even (\<bar>a\<bar> / 2 powi e)) * (2::rat) powi e"
    unfolding abs by simp
  from fl_Some [OF e m assms(8)] assms(1) show ?thesis by simp
qed

lemma literal_half: "literal (1 / 2) = Num (1 / 2)"
  using fl_double [of 1 "- 1"] by (simp add: literal_def)


lemma literal_10: "literal 10 = Num 10"
  using fl_int [of 10] by (simp add: literal_def)



section \<open>Facts about the schema\<close>

lemma issues_at_Nil: "(issues_at f msgs = []) = (msgs = [])"
  by (simp add: issues_at_def)

lemma issues_at_path: "(\<exists>i \<in> set (issues_at g msgs). path i = [f]) = (g = f \<and> msgs \<noteq> [])"
  by (cases msgs) (auto simp add: issues_at_def)

lemma issues_at_message: "i \<in> set (issues_at g msgs) \<Longrightarrow> path i = [g] \<and> message i \<in> set msgs"
  by (auto simp add: issues_at_def)

lemma issues_Nil: "(applySchema_issues er a = []) = (\<forall>f. field_messages er a f = [])"
proof
  assume "applySchema_issues er a = []"
  then have h: "field_messages er a Name = []" "field_messages er a Mobile = []"
    "field_messages er a Email = []" "field_messages er a Age = []"
    "field_messages er a Qualification = []"
    by (simp_all only: applySchema_issues_def append_is_Nil_conv issues_at_Nil)
  show "\<forall>f. field_messages er a f = []"
  proof
    fix f show "field_messages er a f = []" using h by (cases f) simp_all
  qed
next
  assume "\<forall>f. field_messages er a f = []"
  then show "applySchema_issues er a = []"
    by (simp only: applySchema_issues_def issues_at_Nil append_is_Nil_conv simp_thms)
qed

lemma parse_Inr: "(applySchema_parse er a = Inr v) = (applySchema_issues er a = [] \<and> v = a)"
  by (auto simp add: applySchema_parse_def split: list.splits)

lemma parse_Inl:
  "(applySchema_parse er a = Inl errs) = (errs \<noteq> [] \<and> applySchema_issues er a = errs)"
  by (auto simp add: applySchema_parse_def split: list.splits)

lemma issue_of_field:
  "(\<exists>i \<in> set (applySchema_issues er a). path i = [f]) = (field_messages er a f \<noteq> [])"
  by (cases f)
     (simp_all add: applySchema_issues_def bex_Un issues_at_path del: field_messages.simps)

lemma issue_message_of_field:
  "i \<in> set (applySchema_issues er a) \<Longrightarrow> path i = [f] \<Longrightarrow>
   message i \<in> set (field_messages er a f)"
  by (auto simp add: applySchema_issues_def simp del: field_messages.simps
      dest!: issues_at_message)

lemma parse_fails_at:
  assumes "field_messages er a f \<noteq> []"
  shows "applySchema_parse er a = Inl (applySchema_issues er a)"
proof -
  from assms have "\<exists>i \<in> set (applySchema_issues er a). path i = [f]"
    by (simp add: issue_of_field)
  then have "applySchema_issues er a \<noteq> []" by auto
  then show ?thesis by (simp add: parse_Inl)
qed

lemma newErrors_issues_at:
  "newErrors (issues_at f msgs @ rest) m =
     newErrors rest (if msgs = [] then m else m(f \<mapsto> last msgs))"
  by (induction msgs arbitrary: m) (simp_all add: issues_at_def)

lemma newErrors_issues_at_last:
  "newErrors (issues_at f msgs) m = (if msgs = [] then m else m(f \<mapsto> last msgs))"
  using newErrors_issues_at [of f msgs "[]" m] by simp

lemma newErrors_schema:
  "newErrors (applySchema_issues er a) Map.empty f = last_message (field_messages er a f)"
  by (cases f)
     (simp_all add: applySchema_issues_def newErrors_issues_at newErrors_issues_at_last
        last_message_def del: field_messages.simps)

lemma parseInt_Nil: "parseInt [] = NaN"
  by (simp add: parseInt_def stripSign_def signOf_def)

lemma fl_of_int_whole:
  assumes "fl (of_int i) = Num y"
  shows "\<exists>k::int. y = of_int k"
proof (cases "\<bar>i\<bar> < 2 ^ 53")
  case True
  then have "fl (of_int i) = Num (of_int i)" by (rule fl_int)
  with assms show ?thesis by auto
next
  case False
  then have big: "(2::rat) ^ 53 \<le> \<bar>of_int i\<bar>"
    by (metis linorder_not_less of_int_abs of_int_le_iff of_int_numeral of_int_power)
  from assms obtain e where e: "exponent_of \<bar>of_int i\<bar> = Some e"
    by (cases "exponent_of \<bar>rat_of_int i\<bar>") (auto simp add: fl_def Let_def split: if_splits)
  from exponent_Some [OF e] big have "(2::rat) powi 53 < 2 powi (e + 53)" by simp
  then have "0 \<le> e" by (metis add_le_cancel_right add_0 linorder_not_less pow2_mono leD nle_le)
  then have p: "(2::rat) powi e = of_int (2 ^ nat e)" by (rule pow2_int)
  define n where "n = round_half_even (\<bar>rat_of_int i\<bar> / 2 powi e)"
  from assms e have "y = of_int n * 2 powi e \<or> y = - (of_int n * 2 powi e)"
    unfolding n_def by (auto simp add: fl_def Let_def split: if_splits)
  then have "y = of_int (n * 2 ^ nat e) \<or> y = of_int (- (n * 2 ^ nat e))"
    unfolding p by simp
  then show ?thesis by blast
qed

lemma parseInt_forms:
  "parseInt s = NaN \<or> parseInt s = PosInfinity \<or> parseInt s = NegInfinity \<or>
   (\<exists>k::int. parseInt s = Num (of_int k))"
proof -
  obtain R S' where st: "stripPrefix (stripSign (dropWhile isWhiteSpace s)) = (R, S')"
    by (cases "stripPrefix (stripSign (dropWhile isWhiteSpace s))")
  show ?thesis
  proof (cases "takeWhile (isRadixDigit R) S' = []")
    case True
    then show ?thesis by (simp add: parseInt_def st)
  next
    case False
    define i where
      "i = signOf (dropWhile isWhiteSpace s) * int (mathInt R (takeWhile (isRadixDigit R) S'))"
    from False have "parseInt s = fl (of_int i)"
      by (simp add: parseInt_def st i_def del: of_int_mult of_int_of_nat_eq)
    moreover have "fl (of_int i) = PosInfinity \<or> fl (of_int i) = NegInfinity \<or>
        (\<exists>k::int. fl (of_int i) = Num (of_int k))"
      using fl_forms [of "of_int i"] fl_of_int_whole [of i] by blast
    ultimately show ?thesis by auto
  qed
qed

lemma fl_numeral: "(numeral n :: int) < 2 ^ 53 \<Longrightarrow> fl (numeral n) = Num (numeral n)"
  using fl_int [of "numeral n"] by simp

lemma parseInt_ages:
  "parseInt (js ''17'') = Num 17 \<and> parseInt (js ''18'') = Num 18 \<and>
   parseInt (js ''25'') = Num 25 \<and> parseInt (js ''100'') = Num 100 \<and>
   parseInt (js ''101'') = Num 101"
  by (simp add: js_def parseInt_def signOf_def stripSign_def isRadixDigit_def digitValue_def
      mathInt_def isWhiteSpace_def fl_numeral)

lemma age_rule_accepts:
  "(age_rule n = []) = (case n of Num x \<Rightarrow> 18 \<le> x \<and> x \<le> 100 | _ \<Rightarrow> False)"
  by (cases n) (auto simp add: age_rule_def)

lemma field_empty_messages:
  assumes "\<not> er []" "field_text f fd = []"
  shows "field_messages er (candidate fd) f \<noteq> []"
proof (cases f)
  case Name
  with assms show ?thesis by (simp add: field_text_def candidate_def name_rule_def)
next
  case Mobile
  with assms show ?thesis
    by (simp add: field_text_def candidate_def mobile_rule_def mobile_regex_def)
next
  case Email
  with assms show ?thesis by (simp add: field_text_def candidate_def email_rule_def)
next
  case Age
  with assms show ?thesis by (simp add: field_text_def candidate_def parseInt_Nil age_rule_def)
next
  case Qualification
  with assms show ?thesis
    by (simp add: field_text_def candidate_def qualification_rule_def qualifications_def js_def)
qed

subsection \<open>The concrete inputs\<close>

lemma candidate_jane:
  "candidate jane =
     \<lparr>app_name = js ''Jane Doe'', app_mobile = js ''9876543210'',
      app_email = js ''jane@example.com'', app_age = Num 25, app_qualification = js ''UG''\<rparr>"
  using parseInt_ages by (simp add: candidate_def jane_def)

lemma jane_messages: "field_messages sample_email_regex (candidate jane) f = []"
  unfolding candidate_jane
  by (cases f)
     (simp_all add: js_def name_rule_def name_regex_def isLetter_def isWhiteSpace_def
        mobile_rule_def mobile_regex_def isDigit_def email_rule_def sample_email_regex_def
        age_rule_def qualification_rule_def qualifications_def)

lemma parse_jane: "applySchema_parse sample_email_regex (candidate jane) = Inr (candidate jane)"
  by (simp add: parse_Inr issues_Nil jane_messages)

lemma formData_filled: "formData filled = jane"
  by (simp add: filled_def)

lemma submitting_eq:
  "submitting =
     filled\<lparr>loading := True, invoked := [(''submit-application'', candidate jane)],
            in_flight := 1\<rparr>"
  by (simp add: submitting_def handleSubmit_begin_def formData_filled parse_jane)
     (simp add: filled_def initial_def)

lemma inputs_filled: "foldl (step er) initial typing = filled"
  by (simp add: typing_def initial_def filled_def jane_def onChange_def handleInputChange_def
      set_field_def js_def isDigit_def)

lemma submit_filled: "step sample_email_regex filled Submit = submitting"
  by (simp add: submitting_def) (simp add: filled_def initial_def)

lemma run_submit_once: "run sample_email_regex submit_once = submitting"
  by (simp only: run_def submit_once_def foldl_append inputs_filled foldl.simps submit_filled)

lemma run_submit_twice:
  "run sample_email_regex submit_twice =
     world_of (handleSubmit_begin sample_email_regex submitting)"
proof -
  have "run sample_email_regex submit_twice = step sample_email_regex submitting Submit"
    by (simp only: run_def submit_twice_def foldl_append inputs_filled foldl.simps submit_filled)
  then show ?thesis by (simp add: submitting_eq filled_def initial_def)
qed

section \<open>Facts about the controller\<close>

lemma handleSubmit_invalid:
  assumes "applySchema_parse er (candidate (formData w)) = Inl errs"
  shows "handleSubmit er gateway w =
           w\<lparr>errors := newErrors errs Map.empty, toasts := toasts w @ [validation_toast],
              loading := False\<rparr>"
  using assms by (simp add: handleSubmit_def handleSubmit_begin_def)

lemma handleSubmit_begin_valid:
  assumes "applySchema_parse er (candidate (formData w)) = Inr v"
  shows "handleSubmit_begin er w =
           Awaiting v (w\<lparr>errors := Map.empty, loading := True,
                         invoked := invoked w @ [(''submit-application'', v)],
                         in_flight := Suc (in_flight w)\<rparr>)"
  using assms by (simp add: handleSubmit_begin_def)

lemma handleInputChange_keeps:
  "loading (handleInputChange f v w) = loading w \<and>
   in_flight (handleInputChange f v w) = in_flight w"
  by (simp add: handleInputChange_def Let_def split: option.splits)

lemma onChange_keeps:
  "loading (onChange f v w) = loading w \<and> in_flight (onChange f v w) = in_flight w"
  by (cases f) (simp_all add: onChange_def handleInputChange_keeps)

lemma begin_inv:
  "one_at_most w \<Longrightarrow> \<not> loading w \<Longrightarrow> one_at_most (world_of (handleSubmit_begin er w))"
  by (cases "applySchema_parse er (candidate (formData w))")
     (simp_all add: one_at_most_def handleSubmit_begin_def)

lemma resume_inv:
  "one_at_most w \<Longrightarrow> in_flight w \<noteq> 0 \<Longrightarrow> one_at_most (handleSubmit_resume r w)"
  by (cases r) (simp_all add: one_at_most_def handleSubmit_resume_def split: if_splits)

lemma step_inv:
  assumes "one_at_most w" and "ev = Submit \<longrightarrow> \<not> submit_disabled w"
  shows "one_at_most (step er w ev)"
proof (cases ev)
  case (Input f raw)
  with assms(1) show ?thesis by (simp add: one_at_most_def onChange_keeps)
next
  case Submit
  with assms show ?thesis by (simp add: begin_inv submit_disabled_def)
next
  case (Reply r)
  with assms(1) show ?thesis by (simp add: resume_inv)
qed

lemma foldl_inv:
  "one_at_most w \<Longrightarrow> button_respected er w evs \<Longrightarrow> one_at_most (foldl (step er) w evs)"
  by (induction evs arbitrary: w) (simp_all add: step_inv)

lemma button_respected_append:
  "button_respected er w (xs @ ys) =
     (button_respected er w xs \<and> button_respected er (foldl (step er) w xs) ys)"
  by (induction xs arbitrary: w) simp_all

lemma button_respected_typing: "button_respected er initial typing"
  by (simp add: typing_def)

section \<open>Facts about the ticker\<close>







lemma length_tick: "length (tick random prev) = length prev"
  by (simp add: tick_def)







text \<open>
  The rounding of a sum can carry a difference past the bound of the perturbation:
  with a draw of 0 a change just above -256 goes to -261.
\<close>

lemma change_sum_exceeds_five:
  "perturbation 0 10 = Num (- 5) \<and>
   js_add (Num (- (9007199254740991 / 2 ^ 45))) (Num (- 5)) = Num (- 261) \<and>
   (5::rat) < \<bar>- 261 - (- (9007199254740991 / 2 ^ 45))\<bar>"
proof -
  have "fl (- (1 / 2)) = Num (- (1 / 2))"
    using fl_double [of "- 1" "- 1"] by simp
  then have s: "js_sub (Num 0) (literal (1 / 2)) = Num (- (1 / 2))"
    by (simp add: js_sub_def literal_half)
  have "fl (- 5) = Num (- 5)"
    using fl_int [of "- 5"] by simp
  then have d: "perturbation 0 10 = Num (- 5)"
    by (simp add: perturbation_def s literal_10)
  have "fl (9183121115185151 / 2 ^ 45) = Num (of_int (4591560557592575 + 1) * 2 powi (- 44))"
    by (rule fl_tie) simp_all
  then have "fl (9183121115185151 / 2 ^ 45) = Num 261" by simp
  then have "fl (- (9183121115185151 / 2 ^ 45)) = Num (- 261)"
    by (simp add: fl_minus)
  then have a: "js_add (Num (- (9007199254740991 / 2 ^ 45))) (Num (- 5)) = Num (- 261)"
    by simp
  from d a show ?thesis by simp
qed

section \<open>The claims\<close>

subsection \<open>The mobile rule\<close>

text \<open>
  Claim C6. The mobile rule accepts exactly the strings of exactly ten digit
  characters: a mobile value with a non-digit character or of another length makes
  validation fail, with an issue for the mobile field; \<open>"12345"\<close> fails and
  \<open>"1234567890"\<close> passes the rule.
\<close>

theorem mobile_rule_ten_digits:
  "(mobile_rule s = []) = (length s = 10 \<and> list_all isDigit s) \<and>
   (\<not> (length (app_mobile a) = 10 \<and> list_all isDigit (app_mobile a)) \<longrightarrow>
      (\<exists>errs. applySchema_parse er a = Inl errs \<and> (\<exists>i \<in> set errs. path i = [Mobile]))) \<and>
   mobile_rule (js ''12345'') \<noteq> [] \<and>
   mobile_rule (js ''1234567890'') = []"
proof -
  have exact: "(mobile_rule t = []) = (length t = 10 \<and> list_all isDigit t)" for t
    by (simp add: mobile_rule_def mobile_regex_def)
  have fails: "\<exists>errs. applySchema_parse er a = Inl errs \<and> (\<exists>i \<in> set errs. path i = [Mobile])"
    if bad: "\<not> (length (app_mobile a) = 10 \<and> list_all isDigit (app_mobile a))"
  proof -
    from bad have m: "field_messages er a Mobile \<noteq> []"
      by (simp add: exact)
    then have "applySchema_parse er a = Inl (applySchema_issues er a)"
      by (rule parse_fails_at)
    moreover from m have "\<exists>i \<in> set (applySchema_issues er a). path i = [Mobile]"
      by (simp add: issue_of_field)
    ultimately show ?thesis by blast
  qed
  have short: "mobile_rule (js ''12345'') \<noteq> []"
    by (simp add: exact js_def)
  have ten: "mobile_rule (js ''1234567890'') = []"
    by (simp add: exact js_def isDigit_def)
  from exact fails short ten show ?thesis by blast
qed

theorem mobile_rule_ten_digits_witness:
  "\<not> (length (app_mobile short_mobile) = 10 \<and> list_all isDigit (app_mobile short_mobile)) \<and>
   applySchema_parse sample_email_regex short_mobile =
     Inl [\<lparr>path = [Mobile], message = ''Mobile number must be exactly 10 digits''\<rparr>]"
proof -
  have bad: "\<not> (length (app_mobile short_mobile) = 10 \<and> list_all isDigit (app_mobile short_mobile))"
    by (simp add: short_mobile_def js_def)
  have others: "field_messages sample_email_regex short_mobile f = (if f = Mobile
      then [''Mobile number must be exactly 10 digits''] else [])" for f
    using jane_messages [of f]
    by (cases f) (simp_all add: short_mobile_def mobile_rule_def mobile_regex_def js_def)
  from mobile_rule_ten_digits [of "js ''12345''" short_mobile sample_email_regex] bad
  obtain errs where "applySchema_parse sample_email_regex short_mobile = Inl errs"
    by blast
  then have "applySchema_parse sample_email_regex short_mobile =
      Inl (applySchema_issues sample_email_regex short_mobile)"
    by (simp add: parse_Inl)
  with bad show ?thesis
    by (simp add: applySchema_issues_def others issues_at_def del: field_messages.simps)
qed

subsection \<open>The age rule\<close>

text \<open>
  Claim C7. The age rule accepts exactly the integers from 18 to 100, both included.
  The rule is applied to what \<open>parseInt\<close> returned and to nothing else, which is \<open>NaN\<close>,
  an infinity or an integer; it accepts such a value exactly when it is an integer
  from 18 to 100, and it accepts every integer from 18 to 100. An age of 17 fails,
  18 passes, 100 passes and 101 fails.
\<close>

theorem age_rule_range:
  "(age_rule (parseInt s) = []) =
     (\<exists>j::int. parseInt s = Num (of_int j) \<and> 18 \<le> j \<and> j \<le> 100) \<and>
   (age_rule (Num (of_int k)) = []) = (18 \<le> k \<and> k \<le> 100) \<and>
   parseInt (js ''17'') = Num 17 \<and> age_rule (Num 17) \<noteq> [] \<and>
   parseInt (js ''18'') = Num 18 \<and> age_rule (Num 18) = [] \<and>
   parseInt (js ''100'') = Num 100 \<and> age_rule (Num 100) = [] \<and>
   parseInt (js ''101'') = Num 101 \<and> age_rule (Num 101) \<noteq> []"
proof -
  have whole: "(age_rule (Num (of_int i)) = []) = (18 \<le> i \<and> i \<le> 100)" for i :: int
  proof -
    have "((18::rat) \<le> of_int i) = (18 \<le> i)"
      by (metis of_int_le_iff of_int_numeral)
    moreover have "(of_int i \<le> (100::rat)) = (i \<le> 100)"
      by (metis of_int_le_iff of_int_numeral)
    ultimately show ?thesis by (simp add: age_rule_accepts)
  qed
  have parsed: "(age_rule (parseInt s) = []) =
      (\<exists>j::int. parseInt s = Num (of_int j) \<and> 18 \<le> j \<and> j \<le> 100)"
  proof -
    consider "parseInt s = NaN" | "parseInt s = PosInfinity" | "parseInt s = NegInfinity"
      | i :: int where "parseInt s = Num (of_int i)"
      using parseInt_forms [of s] by blast
    then show ?thesis
    proof cases
      case 4
      then show ?thesis using whole [of i] by auto
    qed (simp_all add: age_rule_def)
  qed
  have examples: "age_rule (Num 17) \<noteq> [] \<and> age_rule (Num 18) = [] \<and>
      age_rule (Num 100) = [] \<and> age_rule (Num 101) \<noteq> []"
    by (simp add: age_rule_def)
  from parsed whole [of k] parseInt_ages examples show ?thesis by simp
qed

theorem age_rule_range_witness:
  "age_rule (parseInt (js ''25'')) = [] \<and> parseInt (js ''25'') = Num (of_int 25)"
proof -
  have p: "parseInt (js ''25'') = Num (of_int 25)"
    using parseInt_ages by simp
  from age_rule_range [of "js ''25''" 25] show ?thesis
    unfolding p by simp
qed

subsection \<open>The qualification rule\<close>

text \<open>
  Claim C8. For every qualification value that is not one of High School, UG, PG and
  Others (\<open>"Graduate"\<close> and the empty string are such values), validation fails, and
  every issue of the qualification field, of which there is one, carries the message
  "Please select a qualification"; this is the message the form then holds for the
  field.
\<close>

theorem qualification_dedicated_message:
  "(app_qualification a \<notin> set qualifications \<longrightarrow>
      (\<exists>errs. applySchema_parse er a = Inl errs \<and>
         \<lparr>path = [Qualification], message = ''Please select a qualification''\<rparr> \<in> set errs \<and>
         (\<forall>i \<in> set errs. path i = [Qualification] \<longrightarrow>
            message i = ''Please select a qualification''))) \<and>
   (qualification (formData w) \<notin> set qualifications \<longrightarrow>
      errors (handleSubmit er gateway w) Qualification = Some ''Please select a qualification'') \<and>
   js ''Graduate'' \<notin> set qualifications \<and> [] \<notin> set qualifications"
proof -
  have schema: "\<exists>errs. applySchema_parse er b = Inl errs \<and>
         \<lparr>path = [Qualification], message = ''Please select a qualification''\<rparr> \<in> set errs \<and>
         (\<forall>i \<in> set errs. path i = [Qualification] \<longrightarrow>
            message i = ''Please select a qualification'')"
    if out: "app_qualification b \<notin> set qualifications" for b
  proof -
    from out have m: "field_messages er b Qualification = [''Please select a qualification'']"
      by (simp add: qualification_rule_def)
    then have "field_messages er b Qualification \<noteq> []" by simp
    then have p: "applySchema_parse er b = Inl (applySchema_issues er b)"
      by (rule parse_fails_at)
    have "\<lparr>path = [Qualification], message = ''Please select a qualification''\<rparr>
            \<in> set (applySchema_issues er b)"
      using m by (simp add: applySchema_issues_def issues_at_def del: field_messages.simps)
    moreover have "\<forall>i \<in> set (applySchema_issues er b).
        path i = [Qualification] \<longrightarrow> message i = ''Please select a qualification''"
      using issue_message_of_field [of _ er b Qualification] m by auto
    ultimately show ?thesis using p by blast
  qed
  have form: "errors (handleSubmit er gateway w) Qualification =
      Some ''Please select a qualification''"
    if out: "qualification (formData w) \<notin> set qualifications"
  proof -
    from out have m: "field_messages er (candidate (formData w)) Qualification =
        [''Please select a qualification'']"
      by (simp add: qualification_rule_def candidate_def)
    then have "field_messages er (candidate (formData w)) Qualification \<noteq> []" by simp
    then have "applySchema_parse er (candidate (formData w)) =
        Inl (applySchema_issues er (candidate (formData w)))"
      by (rule parse_fails_at)
    then show ?thesis
      by (simp add: handleSubmit_invalid newErrors_schema m last_message_def
          del: field_messages.simps)
  qed
  have ex: "js ''Graduate'' \<notin> set qualifications \<and> [] \<notin> set qualifications"
    by (simp add: qualifications_def js_def)
  from schema [of a] form ex show ?thesis by blast
qed

theorem qualification_dedicated_message_witness:
  "app_qualification graduate \<notin> set qualifications \<and>
   applySchema_parse sample_email_regex graduate =
     Inl [\<lparr>path = [Qualification], message = ''Please select a qualification''\<rparr>]"
proof -
  have out: "app_qualification graduate \<notin> set qualifications"
    by (simp add: graduate_def qualifications_def js_def)
  have others: "field_messages sample_email_regex graduate f = (if f = Qualification
      then [''Please select a qualification''] else [])" for f
    using jane_messages [of f] out
    by (cases f) (simp_all add: graduate_def qualification_rule_def)
  from qualification_dedicated_message [of graduate sample_email_regex initial accepting_gateway] out
  obtain errs where "applySchema_parse sample_email_regex graduate = Inl errs"
    by blast
  then have "applySchema_parse sample_email_regex graduate =
      Inl (applySchema_issues sample_email_regex graduate)"
    by (simp add: parse_Inl)
  with out show ?thesis
    by (simp add: applySchema_issues_def others issues_at_def del: field_messages.simps)
qed

subsection \<open>Names of white space\<close>

text \<open>
  Claim C10. A candidate whose name is a non-empty string of white space characters
  only, and whose other fields are valid, is accepted by the schema: the name rule
  asks for one character at least and for letters and white space, no more.
\<close>

theorem whitespace_name_accepted:
  assumes "app_name a \<noteq> []" and "list_all isWhiteSpace (app_name a)"
    and "mobile_rule (app_mobile a) = []"
    and "email_rule er (app_email a) = []"
    and "age_rule (app_age a) = []"
    and "qualification_rule (app_qualification a) = []"
  shows "applySchema_parse er a = Inr a"
proof -
  from assms(2) have "list_all (\<lambda>c. isLetter c \<or> isWhiteSpace c) (app_name a)"
    by (simp add: list_all_iff)
  with assms(1) have "name_rule (app_name a) = []"
    by (simp add: name_rule_def name_regex_def)
  with assms(3-6) have "field_messages er a f = []" for f
    by (cases f) simp_all
  then show ?thesis by (simp add: parse_Inr issues_Nil)
qed

theorem whitespace_name_accepted_witness:
  "app_name blank_name = [0x20, 0x09, 0xA0] \<and> list_all isWhiteSpace (app_name blank_name) \<and>
   applySchema_parse sample_email_regex blank_name = Inr blank_name"
proof -
  have n: "app_name blank_name = [0x20, 0x09, 0xA0]"
    by (simp add: blank_name_def)
  have w: "list_all isWhiteSpace (app_name blank_name)"
    unfolding n by (simp add: isWhiteSpace_def)
  have m: "mobile_rule (app_mobile blank_name) = []"
    using jane_messages [of Mobile] by (simp add: blank_name_def)
  have e: "email_rule sample_email_regex (app_email blank_name) = []"
    using jane_messages [of Email] by (simp add: blank_name_def)
  have g: "age_rule (app_age blank_name) = []"
    using jane_messages [of Age] by (simp add: blank_name_def)
  have q: "qualification_rule (app_qualification blank_name) = []"
    using jane_messages [of Qualification] by (simp add: blank_name_def)
  have "app_name blank_name \<noteq> []" by (simp add: n)
  from whitespace_name_accepted [OF this w m e g q] n w show ?thesis by simp
qed

subsection \<open>Submitting\<close>



text \<open>
  Claim C3. For every submission whose invocation fails, the error is logged with
  \<open>console.error\<close> and the toast "Submission Failed", which is not the validation toast,
  is shown; \<open>loading\<close> is cleared, the form data is what it was, the success state is
  not entered, and the one invocation is the only one (the errors having been cleared
  when the submission began). The same holds of the second half of the handler in
  whatever state the answer finds the component.
\<close>

theorem gateway_failure_reported:
  assumes "applySchema_parse er (candidate (formData w)) = Inr v" and "gateway v = Some e"
  shows "handleSubmit er gateway w =
           w\<lparr>errors := Map.empty, loading := False,
              invoked := invoked w @ [(''submit-application'', v)],
              console_errors := console_errors w @ [(''Submission error:'', e)],
              toasts := toasts w @ [failure_toast]\<rparr> \<and>
         failure_toast \<noteq> validation_toast \<and>
         formData (handleSubmit er gateway w) = formData w \<and>
         \<not> loading (handleSubmit er gateway w) \<and>
         submitted (handleSubmit er gateway w) = submitted w \<and>
         handleSubmit_resume (Some e) w' =
           w'\<lparr>in_flight := in_flight w' - 1, loading := False,
               console_errors := console_errors w' @ [(''Submission error:'', e)],
               toasts := toasts w' @ [failure_toast]\<rparr>"
proof -
  have whole: "handleSubmit er gateway w =
           w\<lparr>errors := Map.empty, loading := False,
              invoked := invoked w @ [(''submit-application'', v)],
              console_errors := console_errors w @ [(''Submission error:'', e)],
              toasts := toasts w @ [failure_toast]\<rparr>"
    by (simp add: handleSubmit_def handleSubmit_begin_valid [OF assms(1)] assms(2)
        handleSubmit_resume_def)
  have distinct: "failure_toast \<noteq> validation_toast"
    by (simp add: failure_toast_def validation_toast_def)
  have second: "handleSubmit_resume (Some e) w' =
           w'\<lparr>in_flight := in_flight w' - 1, loading := False,
               console_errors := console_errors w' @ [(''Submission error:'', e)],
               toasts := toasts w' @ [failure_toast]\<rparr>"
    by (simp add: handleSubmit_resume_def)
  show ?thesis unfolding whole using distinct second by simp
qed

theorem gateway_failure_reported_witness:
  "applySchema_parse sample_email_regex (candidate (formData filled)) = Inr (candidate jane) \<and>
   failing_gateway (candidate jane) = Some (FunctionsError ''Failed to fetch'') \<and>
   handleSubmit sample_email_regex failing_gateway filled =
     filled\<lparr>invoked := [(''submit-application'', candidate jane)],
            console_errors := [(''Submission error:'', FunctionsError ''Failed to fetch'')],
            toasts := [failure_toast]\<rparr>"
proof -
  have p: "applySchema_parse sample_email_regex (candidate (formData filled)) = Inr (candidate jane)"
    by (simp add: formData_filled parse_jane)
  have g: "failing_gateway (candidate jane) = Some (FunctionsError ''Failed to fetch'')"
    by (simp add: failing_gateway_def)
  from gateway_failure_reported [where gateway = failing_gateway and w' = filled, OF p g] p g
  show ?thesis
    by (simp add: filled_def initial_def)
qed

text \<open>
  Claim C4. For every candidate that fails validation, submitting makes no invocation;
  the error map it leaves has an entry for every field that has an issue and for no
  other, each holding the last message of its field; the toast "Validation Error" is
  shown; \<open>loading\<close> is off; and nothing else has changed.
\<close>

theorem validation_failure_collected:
  assumes "applySchema_parse er (candidate (formData w)) = Inl errs"
  shows "handleSubmit er gateway w =
           w\<lparr>errors := newErrors errs Map.empty, toasts := toasts w @ [validation_toast],
              loading := False\<rparr> \<and>
         invoked (handleSubmit er gateway w) = invoked w \<and>
         in_flight (handleSubmit er gateway w) = in_flight w \<and>
         (errors (handleSubmit er gateway w) f \<noteq> None) = (\<exists>i \<in> set errs. path i = [f]) \<and>
         errors (handleSubmit er gateway w) f =
           last_message (field_messages er (candidate (formData w)) f)"
proof -
  from assms have e: "applySchema_issues er (candidate (formData w)) = errs"
    by (simp add: parse_Inl)
  have m: "newErrors errs Map.empty f =
      last_message (field_messages er (candidate (formData w)) f)"
    unfolding e [symmetric] by (rule newErrors_schema)
  have d: "(\<exists>i \<in> set errs. path i = [f]) = (field_messages er (candidate (formData w)) f \<noteq> [])"
    unfolding e [symmetric] by (rule issue_of_field)
  show ?thesis
    unfolding handleSubmit_invalid [OF assms] d by (simp add: m last_message_def)
qed

theorem validation_failure_collected_witness:
  "applySchema_parse sample_email_regex (candidate (formData initial)) =
     Inl (applySchema_issues sample_email_regex (candidate (formData initial))) \<and>
   errors (handleSubmit sample_email_regex accepting_gateway initial) Name =
     Some ''Name must contain only letters and spaces'' \<and>
   invoked (handleSubmit sample_email_regex accepting_gateway initial) = [] \<and>
   toasts (handleSubmit sample_email_regex accepting_gateway initial) = [validation_toast]"
proof -
  have n: "field_messages sample_email_regex (candidate (formData initial)) Name =
      [''Name is required'', ''Name must contain only letters and spaces'']"
    by (simp add: initial_def candidate_def name_rule_def name_regex_def)
  then have "field_messages sample_email_regex (candidate (formData initial)) Name \<noteq> []"
    by simp
  then have p: "applySchema_parse sample_email_regex (candidate (formData initial)) =
     Inl (applySchema_issues sample_email_regex (candidate (formData initial)))"
    by (rule parse_fails_at)
  note t = validation_failure_collected [where gateway = accepting_gateway and f = Name, OF p]
  from t have w: "handleSubmit sample_email_regex accepting_gateway initial =
      initial\<lparr>errors :=
                newErrors (applySchema_issues sample_email_regex (candidate (formData initial)))
                  Map.empty,
              toasts := toasts initial @ [validation_toast], loading := False\<rparr>"
    by blast
  from t have "errors (handleSubmit sample_email_regex accepting_gateway initial) Name =
      last_message (field_messages sample_email_regex (candidate (formData initial)) Name)"
    by blast
  then have m: "errors (handleSubmit sample_email_regex accepting_gateway initial) Name =
      Some ''Name must contain only letters and spaces''"
    by (simp only: n last_message_def) simp
  have i: "invoked (handleSubmit sample_email_regex accepting_gateway initial) = []"
    unfolding w by (simp add: initial_def)
  have o: "toasts (handleSubmit sample_email_regex accepting_gateway initial) = [validation_toast]"
    unfolding w by (simp add: initial_def)
  from p m i o show ?thesis by blast
qed

text \<open>
  Claim C5. For every form in which one of the five fields is empty when it is
  submitted (a field of the form is never absent), validation fails, the issues
  returned contain one whose path is that field, and the form then holds an error for
  it. An empty age is first turned into \<open>NaN\<close> by \<open>parseInt\<close> and is rejected as such.
  The library's e-mail pattern is taken not to match the empty string.
\<close>

theorem empty_field_reported:
  assumes "\<not> er []" and "field_text f (formData w) = []"
  shows "\<exists>errs. applySchema_parse er (candidate (formData w)) = Inl errs \<and>
           (\<exists>i \<in> set errs. path i = [f]) \<and>
           errors (handleSubmit er gateway w) f \<noteq> None"
proof -
  have n: "field_messages er (candidate (formData w)) f \<noteq> []"
    using assms by (rule field_empty_messages)
  then have i: "\<exists>i \<in> set (applySchema_issues er (candidate (formData w))). path i = [f]"
    by (simp add: issue_of_field)
  from n have p: "applySchema_parse er (candidate (formData w)) =
      Inl (applySchema_issues er (candidate (formData w)))"
    by (rule parse_fails_at)
  have "errors (handleSubmit er gateway w) f \<noteq> None"
    unfolding handleSubmit_invalid [OF p] using n
    by (simp add: newErrors_schema last_message_def)
  with p i show ?thesis by blast
qed

theorem empty_field_reported_witness:
  "\<not> sample_email_regex [] \<and> field_text Age (formData initial) = [] \<and>
   parseInt (age (formData initial)) = NaN \<and>
   errors (handleSubmit sample_email_regex accepting_gateway initial) Age \<noteq> None"
proof -
  have e: "\<not> sample_email_regex []"
    by (simp add: sample_email_regex_def)
  have a: "field_text Age (formData initial) = []"
    by (simp add: field_text_def initial_def)
  from empty_field_reported [where er = sample_email_regex and gateway = accepting_gateway
      and f = Age and w = initial, OF e a] e a
  show ?thesis
    by (auto simp add: field_text_def parseInt_Nil)
qed

subsection \<open>One submission at a time\<close>

text \<open>
  Claim C1, as amended. The submit button is rendered disabled exactly while \<open>loading\<close>
  is set, and that is the only guard there is: \<open>handleSubmit\<close> does not look at
  \<open>loading\<close>. In every sequence of events whose submit events all come while the button
  is enabled, at most one invocation is unanswered at any time, and the button is
  disabled, and \<open>loading\<close> set, exactly while one is.
\<close>

theorem submit_single_flight:
  assumes "button_respected er initial evs"
  shows "in_flight (run er evs) \<le> 1 \<and>
         loading (run er evs) = (in_flight (run er evs) = 1) \<and>
         submit_disabled (run er evs) = (in_flight (run er evs) = 1)"
proof -
  have "one_at_most initial"
    by (simp add: one_at_most_def initial_def)
  then have "one_at_most (run er evs)"
    unfolding run_def using assms by (rule foldl_inv)
  then show ?thesis
    by (simp add: one_at_most_def submit_disabled_def split: if_splits)
qed

theorem submit_single_flight_witness:
  "button_respected sample_email_regex initial submit_once \<and>
   run sample_email_regex submit_once = submitting \<and>
   in_flight submitting = 1 \<and> submit_disabled submitting"
proof -
  have "\<not> submit_disabled filled"
    by (simp add: submit_disabled_def filled_def initial_def)
  then have r: "button_respected sample_email_regex initial submit_once"
    by (simp add: submit_once_def button_respected_append button_respected_typing inputs_filled)
  have l: "loading submitting"
    by (simp add: submitting_eq)
  from submit_single_flight [OF r] l r show ?thesis
    by (simp add: run_submit_once submit_disabled_def)
qed

text \<open>
  A second submit event that reaches the form while the first invocation is
  unanswered is handled like the first: the data is validated again and the remote
  function is invoked a second time.
\<close>

theorem handleSubmit_unguarded:
  "submit_disabled submitting \<and> in_flight submitting = 1 \<and>
   run sample_email_regex submit_once = submitting \<and>
   run sample_email_regex submit_twice =
     world_of (handleSubmit_begin sample_email_regex submitting) \<and>
   invoked (run sample_email_regex submit_twice) =
     [(''submit-application'', candidate jane), (''submit-application'', candidate jane)] \<and>
   in_flight (run sample_email_regex submit_twice) = 2 \<and>
   world_of (handleSubmit_begin sample_email_regex submitting) \<noteq> submitting"
proof -
  have f: "formData submitting = jane"
    by (simp add: submitting_eq formData_filled)
  have b: "world_of (handleSubmit_begin sample_email_regex submitting) =
     submitting\<lparr>errors := Map.empty, loading := True,
       invoked := invoked submitting @ [(''submit-application'', candidate jane)],
       in_flight := Suc (in_flight submitting)\<rparr>"
    by (simp add: handleSubmit_begin_def f parse_jane)
  have two: "in_flight (world_of (handleSubmit_begin sample_email_regex submitting)) = 2"
    unfolding b by (simp add: submitting_eq)
  have one: "in_flight submitting = 1"
    by (simp add: submitting_eq)
  with two have d: "world_of (handleSubmit_begin sample_email_regex submitting) \<noteq> submitting"
    by auto
  have i: "invoked (world_of (handleSubmit_begin sample_email_regex submitting)) =
     [(''submit-application'', candidate jane), (''submit-application'', candidate jane)]"
    unfolding b by (simp add: submitting_eq)
  have l: "submit_disabled submitting"
    by (simp add: submit_disabled_def submitting_eq)
  from l one two d i show ?thesis
    by (simp add: run_submit_once run_submit_twice)
qed

subsection \<open>The ticker\<close>




end
